theory Spec2Isabelle
  imports Main "HOL-Library.Sublist"
begin

section \<open>Python values used by the subscription manager\<close>

text \<open>
  The subscription manager works on dictionaries parsed from a JSON document. Each
  dictionary is modelled by a record with one optional field per key the code reads
  (\<open>None\<close>: the key is absent), typed as the data model of the specification types
  it. \<open>d.get(key, default)\<close> is \<open>dict_get\<close> on the optional field.

  Python's \<open>str.lower\<close> belongs to the language, not to this repository, and depends on
  the Unicode tables; every function that calls it takes it as the parameter \<open>lower\<close>,
  so each result holds for whatever \<open>str.lower\<close> computes. \<open>a in b\<close> on two strings is
  the contiguous-substring test \<open>sublist\<close>.

  A method's \<open>self\<close> is an argument of its model only where the method reads it.
  Console output is modelled where a statement below is about what is reported
  (\<open>validate_config\<close>, \<open>export_config\<close>); the progress lines the other methods print
  carry no data that is read again and are left out.
\<close>

definition dict_get :: "'a option \<Rightarrow> 'a \<Rightarrow> 'a" where
  "dict_get field dflt = (case field of None \<Rightarrow> dflt | Some v \<Rightarrow> v)"

definition py_in :: "string \<Rightarrow> string \<Rightarrow> bool" where
  "py_in needle haystack = sublist needle haystack"

text \<open>Truthiness of the value returned by \<open>d.get(key)\<close>: \<open>None\<close>, the empty string and
  the empty list are false.\<close>

definition truthy_str :: "string option \<Rightarrow> bool" where
  "truthy_str v = (case v of None \<Rightarrow> False | Some s \<Rightarrow> s \<noteq> [])"

definition truthy_list :: "'a list option \<Rightarrow> bool" where
  "truthy_list v = (case v of None \<Rightarrow> False | Some xs \<Rightarrow> xs \<noteq> [])"

text \<open>The exceptions that matter to \<open>export_config\<close>. \<open>except Exception\<close> catches the
  instances of \<open>Exception\<close>; \<open>KeyboardInterrupt\<close> derives from \<open>BaseException\<close> only.\<close>

datatype py_exception = IOError | TypeError | ValueError | KeyboardInterrupt

fun is_Exception :: "py_exception \<Rightarrow> bool" where
  "is_Exception KeyboardInterrupt = False"
| "is_Exception _ = True"

section \<open>Data model\<close>

text \<open>The \<open>keywords\<close> dictionary. \<open>kw_other\<close> lists the keys present besides the four
  the code reads: they decide only whether the dictionary is empty.\<close>

record keyword_rule =
  kw_normal :: "string list option"
  kw_required :: "string list option"
  kw_excluded :: "string list option"
  kw_limit :: "int option"
  kw_other :: "string list"

definition empty_keywords :: keyword_rule where
  "empty_keywords =
     \<lparr>kw_normal = None, kw_required = None, kw_excluded = None, kw_limit = None,
      kw_other = []\<rparr>"

text \<open>A news item: only \<open>title\<close> is read; the other keys are the record's extension.\<close>

record news =
  title :: "string option"

record webhook =
  wh_type :: "string option"
  wh_url :: "string option"
  wh_name :: "string option"

record ai_search =
  ai_enabled :: "bool option"
  ai_trigger_threshold :: "int option"
  ai_search_keywords :: "string list option"
  ai_time_range_hours :: "int option"
  ai_max_results :: "int option"

definition empty_ai_search :: ai_search where
  "empty_ai_search =
     \<lparr>ai_enabled = None, ai_trigger_threshold = None, ai_search_keywords = None,
      ai_time_range_hours = None, ai_max_results = None\<rparr>"

text \<open>A subscription dictionary. Its \<open>webhooks\<close> value is of type \<open>'w\<close>: the list of
  webhook dictionaries itself for the methods that only read it, and the address of the
  list object for \<open>get_webhooks\<close>, which runs on an explicit store.\<close>

record 'w subscription =
  sub_id :: "string option"
  sub_name :: "string option"
  sub_enabled :: "bool option"
  sub_keywords :: "keyword_rule option"
  sub_webhooks :: "'w option"
  sub_ai_search :: "ai_search option"

section \<open>Keyword matching\<close>

text \<open>
  The \<open>for news in news_data\<close> loop of \<open>match_news_for_subscription\<close>; each
  \<open>continue\<close> is a recursive call that leaves \<open>matched_news\<close> as it is, and
  \<open>any\<close> and \<open>all\<close> over a generator are \<open>list_ex\<close> and \<open>list_all\<close>.
\<close>

fun match_loop ::
  "(string \<Rightarrow> string) \<Rightarrow> string list \<Rightarrow> string list \<Rightarrow> string list \<Rightarrow>
   'a news_scheme list \<Rightarrow> 'a news_scheme list \<Rightarrow> 'a news_scheme list" where
  "match_loop lower normal_kws required_kws excluded_kws [] matched_news = matched_news"
| "match_loop lower normal_kws required_kws excluded_kws (news # rest) matched_news =
     (let title_l = lower (dict_get (title news) [])
      in if excluded_kws \<noteq> [] \<and> list_ex (\<lambda>ex. py_in (lower ex) title_l) excluded_kws
         then match_loop lower normal_kws required_kws excluded_kws rest matched_news
         else if normal_kws \<noteq> [] \<and> \<not> list_ex (\<lambda>kw. py_in (lower kw) title_l) normal_kws
         then match_loop lower normal_kws required_kws excluded_kws rest matched_news
         else if required_kws \<noteq> [] \<and> \<not> list_all (\<lambda>req. py_in (lower req) title_l) required_kws
         then match_loop lower normal_kws required_kws excluded_kws rest matched_news
         else match_loop lower normal_kws required_kws excluded_kws rest (matched_news @ [news]))"

definition match_news_for_subscription ::
  "(string \<Rightarrow> string) \<Rightarrow> ('w, 'b) subscription_scheme \<Rightarrow> 'a news_scheme list \<Rightarrow>
   'a news_scheme list" where
  "match_news_for_subscription lower subscription news_data =
     (let kws = dict_get (sub_keywords subscription) empty_keywords;
          normal_kws = dict_get (kw_normal kws) [];
          required_kws = dict_get (kw_required kws) [];
          excluded_kws = dict_get (kw_excluded kws) [];
          limit = dict_get (kw_limit kws) 0;
          matched_news = match_loop lower normal_kws required_kws excluded_kws news_data []
      in if limit > 0 \<and> int (length matched_news) > limit
         then take (nat limit) matched_news
         else matched_news)"

section \<open>AI search policy\<close>

definition should_enable_ai_search :: "('w, 'b) subscription_scheme \<Rightarrow> int \<Rightarrow> bool" where
  "should_enable_ai_search subscription matched_count =
     (let ai_config = dict_get (sub_ai_search subscription) empty_ai_search
      in if \<not> dict_get (ai_enabled ai_config) False then False
         else let threshold = dict_get (ai_trigger_threshold ai_config) 3
              in if matched_count < threshold then True else False)"

text \<open>The dictionary \<open>get_ai_search_config\<close> returns: its five keys are always present.\<close>

record ai_search_config =
  enabled :: bool
  trigger_threshold :: int
  search_keywords :: "string list"
  time_range_hours :: int
  max_results :: int

definition get_ai_search_config :: "('w, 'b) subscription_scheme \<Rightarrow> ai_search_config" where
  "get_ai_search_config subscription =
     (let ai_config = dict_get (sub_ai_search subscription) empty_ai_search;
          kws = dict_get (sub_keywords subscription) empty_keywords;
          search_kws0 = ai_search_keywords ai_config;
          search_kws = (if \<not> truthy_list search_kws0 then dict_get (kw_normal kws) []
                        else dict_get search_kws0 [])
      in \<lparr>enabled = dict_get (ai_enabled ai_config) False,
          trigger_threshold = dict_get (ai_trigger_threshold ai_config) 3,
          search_keywords = search_kws,
          time_range_hours = dict_get (ai_time_range_hours ai_config) 24,
          max_results = dict_get (ai_max_results ai_config) 15\<rparr>)"

section \<open>The manager: validation and export\<close>

text \<open>The fields of \<open>self\<close> that the methods below read. \<open>config_data\<close> is the parsed
  document as a whole, of a type \<open>'c\<close> that no method here looks into.\<close>

record 'c subscription_manager =
  config_path :: string
  config_data :: 'c
  subscriptions :: "webhook list subscription list"

text \<open>
  The messages \<open>validate_config\<close> appends to \<open>errors\<close>, by format string and
  arguments. \<open>sub_id = sub.get("id", f"...{idx}")\<close> is the subscription's \<open>id\<close> or,
  when that key is absent, a label made of the 1-based position \<open>idx\<close>.
\<close>

datatype sub_label = Id_label string | Position_label nat

datatype validation_error =
    Missing_name sub_label
  | Missing_keywords sub_label
  | Missing_webhooks sub_label
  | Empty_webhooks_list sub_label
  | Webhook_missing_url sub_label nat

datatype validate_line =
    Warn_no_subscriptions
  | Error_validation_failed
  | Error_item validation_error
  | Ok_validation_passed

definition truthy_keywords :: "keyword_rule option \<Rightarrow> bool" where
  "truthy_keywords v = (case v of None \<Rightarrow> False | Some k \<Rightarrow> k \<noteq> empty_keywords)"

definition sub_label_of :: "nat \<Rightarrow> ('w, 'b) subscription_scheme \<Rightarrow> sub_label" where
  "sub_label_of idx sub = (case sub_id sub of None \<Rightarrow> Position_label idx | Some i \<Rightarrow> Id_label i)"

text \<open>\<open>for w_idx, webhook in enumerate(webhooks, 1)\<close>.\<close>

fun webhook_loop ::
  "sub_label \<Rightarrow> nat \<Rightarrow> 'a webhook_scheme list \<Rightarrow> validation_error list \<Rightarrow> validation_error list" where
  "webhook_loop sid w_idx [] errors = errors"
| "webhook_loop sid w_idx (wh # rest) errors =
     webhook_loop sid (w_idx + 1) rest
       (if \<not> truthy_str (wh_url wh) then errors @ [Webhook_missing_url sid w_idx] else errors)"

text \<open>\<open>for idx, sub in enumerate(self.subscriptions, 1)\<close>.\<close>

fun validate_loop ::
  "nat \<Rightarrow> ('a webhook_scheme list, 'b) subscription_scheme list \<Rightarrow> validation_error list \<Rightarrow>
   validation_error list" where
  "validate_loop idx [] errors = errors"
| "validate_loop idx (sub # rest) errors =
     (let sid = sub_label_of idx sub;
          errors1 = (if \<not> truthy_str (sub_name sub) then errors @ [Missing_name sid] else errors);
          errors2 = (if \<not> truthy_keywords (sub_keywords sub) then errors1 @ [Missing_keywords sid]
                     else errors1);
          errors3 = (if \<not> truthy_list (sub_webhooks sub) then errors2 @ [Missing_webhooks sid]
                     else let webhooks = dict_get (sub_webhooks sub) []
                          in if webhooks = [] then errors2 @ [Empty_webhooks_list sid]
                             else webhook_loop sid 1 webhooks errors2)
      in validate_loop (idx + 1) rest errors3)"

text \<open>\<open>validate_config\<close> returns its verdict; the second component is what it prints.\<close>

definition validate_config :: "'c subscription_manager \<Rightarrow> bool \<times> validate_line list" where
  "validate_config self =
     (if subscriptions self = [] then (False, [Warn_no_subscriptions])
      else let errors = validate_loop 1 (subscriptions self) []
           in if errors \<noteq> [] then (False, Error_validation_failed # map Error_item errors)
              else (True, [Ok_validation_passed]))"

text \<open>
  \<open>export_config\<close>. The body of its \<open>try\<close>, opening the file and \<open>json.dump\<close>, acts on
  a file system that is not part of the repository: it is the parameter \<open>write_json\<close>,
  which gives the exception raised, if any, and the file system afterwards. The result
  is the exception that reaches the caller (\<open>Inl\<close>) or the lines printed on a normal
  return (\<open>Inr\<close>), with the file system.
\<close>

datatype export_line = Ok_exported string | Error_export_failed py_exception

definition export_config ::
  "(string \<Rightarrow> 'c \<Rightarrow> 'fs \<Rightarrow> py_exception option \<times> 'fs) \<Rightarrow> 'c subscription_manager \<Rightarrow> string \<Rightarrow>
   'fs \<Rightarrow> (py_exception + export_line list) \<times> 'fs" where
  "export_config write_json self output_path fs =
     (case write_json output_path (config_data self) fs of
        (None, fs') \<Rightarrow> (Inr [Ok_exported output_path], fs')
      | (Some e, fs') \<Rightarrow>
          if is_Exception e then (Inr [Error_export_failed e], fs') else (Inl e, fs'))"

section \<open>Webhook retrieval on an explicit store\<close>

text \<open>
  \<open>get_webhooks\<close> creates a list object and appends to it, and the question about it is
  which objects it leaves as they were; so it runs on a store of objects. An address is
  a natural number. Dictionaries and lists live in separate parts of the store, one
  per kind of object; a list object holds the addresses of its elements.
  \<open>self_subscriptions\<close> is the address of the list object \<open>self.subscriptions\<close>, and
  \<open>next_list\<close> is the first address at which no list object has been created yet:
  \<open>self.subscriptions\<close> and every \<open>webhooks\<close> list of a loaded configuration lie below
  it.
\<close>

type_synonym addr = nat

record store =
  sub_dicts :: "addr \<Rightarrow> addr subscription"
  webhook_dicts :: "addr \<Rightarrow> webhook"
  list_objs :: "addr \<Rightarrow> addr list"
  self_subscriptions :: addr
  next_list :: addr

text \<open>The expression \<open>[]\<close>: a new, empty list object.\<close>

definition new_list :: "store \<Rightarrow> addr \<times> store" where
  "new_list st =
     (next_list st,
      st\<lparr>list_objs := (list_objs st)(next_list st := []), next_list := next_list st + 1\<rparr>)"

text \<open>\<open>l.append(x)\<close> changes the list object at \<open>l\<close> in place.\<close>

definition list_append :: "store \<Rightarrow> addr \<Rightarrow> addr \<Rightarrow> store" where
  "list_append st l x = st\<lparr>list_objs := (list_objs st)(l := list_objs st l @ [x])\<rparr>"

text \<open>
  \<open>for webhook in webhooks\<close>: the list iterator reads the list object by position, on
  the store as it is at that moment, until the position reaches the list's length. A
  loop that appended to the list it runs over would not end, hence the option type:
  \<open>None\<close> is a loop that does not return.
\<close>

partial_function (option) get_webhooks_loop ::
  "store \<Rightarrow> addr \<Rightarrow> addr \<Rightarrow> nat \<Rightarrow> store option" where
  "get_webhooks_loop st webhooks valid_webhooks i =
     (if i < length (list_objs st webhooks)
      then let wh = list_objs st webhooks ! i
           in if \<not> truthy_str (wh_url (webhook_dicts st wh))
              then get_webhooks_loop st webhooks valid_webhooks (i + 1)
              else get_webhooks_loop (list_append st valid_webhooks wh) webhooks valid_webhooks
                     (i + 1)
      else Some st)"

declare get_webhooks_loop.simps [code]

text \<open>The argument \<open>[]\<close> of \<open>subscription.get("webhooks", [])\<close> is evaluated before the
  call, whether the key is present or not.\<close>

definition get_webhooks :: "store \<Rightarrow> addr \<Rightarrow> (addr \<times> store) option" where
  "get_webhooks st subscription =
     (let (dflt, st1) = new_list st;
          webhooks = dict_get (sub_webhooks (sub_dicts st1 subscription)) dflt;
          (valid_webhooks, st2) = new_list st1
      in case get_webhooks_loop st2 webhooks valid_webhooks 0 of
           None \<Rightarrow> None
         | Some st3 \<Rightarrow> Some (valid_webhooks, st3))"

section \<open>The specification's notions\<close>

text \<open>The keyword rule of a subscription and the title of an item, with every absent
  key read as empty (as 0 for \<open>limit\<close>).\<close>

definition normal_of :: "('w, 'b) subscription_scheme \<Rightarrow> string list" where
  "normal_of sub =
     (case sub_keywords sub of None \<Rightarrow> []
      | Some r \<Rightarrow> (case kw_normal r of None \<Rightarrow> [] | Some ks \<Rightarrow> ks))"

definition required_of :: "('w, 'b) subscription_scheme \<Rightarrow> string list" where
  "required_of sub =
     (case sub_keywords sub of None \<Rightarrow> []
      | Some r \<Rightarrow> (case kw_required r of None \<Rightarrow> [] | Some ks \<Rightarrow> ks))"

definition excluded_of :: "('w, 'b) subscription_scheme \<Rightarrow> string list" where
  "excluded_of sub =
     (case sub_keywords sub of None \<Rightarrow> []
      | Some r \<Rightarrow> (case kw_excluded r of None \<Rightarrow> [] | Some ks \<Rightarrow> ks))"

definition limit_of :: "('w, 'b) subscription_scheme \<Rightarrow> int" where
  "limit_of sub =
     (case sub_keywords sub of None \<Rightarrow> 0
      | Some r \<Rightarrow> (case kw_limit r of None \<Rightarrow> 0 | Some n \<Rightarrow> n))"

definition title_of :: "'a news_scheme \<Rightarrow> string" where
  "title_of item = (case title item of None \<Rightarrow> [] | Some s \<Rightarrow> s)"

text \<open>
  The three rules of the specification for one item: no excluded term is a substring of
  the lower-cased title; some normal term is one, when there are normal terms; all
  required terms are, when there are required terms.
\<close>

definition passes_rules ::
  "(string \<Rightarrow> string) \<Rightarrow> string list \<Rightarrow> string list \<Rightarrow> string list \<Rightarrow> 'a news_scheme \<Rightarrow> bool" where
  "passes_rules lower normal required excluded item =
     ((\<forall>ex \<in> set excluded. \<not> sublist (lower ex) (lower (title_of item))) \<and>
      (normal \<noteq> [] \<longrightarrow> (\<exists>kw \<in> set normal. sublist (lower kw) (lower (title_of item)))) \<and>
      (required \<noteq> [] \<longrightarrow> (\<forall>req \<in> set required. sublist (lower req) (lower (title_of item)))))"

text \<open>Truncation to the first \<open>limit\<close> items when \<open>limit > 0\<close> and more than \<open>limit\<close>
  items are there.\<close>

definition truncate_to_limit :: "int \<Rightarrow> 'a list \<Rightarrow> 'a list" where
  "truncate_to_limit limit xs =
     (if limit > 0 \<and> int (length xs) > limit then take (nat limit) xs else xs)"

text \<open>The violations of one subscription, as the specification lists them: name,
  keywords or webhooks missing or empty, or a webhook whose url is missing or empty.\<close>

definition has_violation :: "('a webhook_scheme list, 'b) subscription_scheme \<Rightarrow> bool" where
  "has_violation sub =
     (sub_name sub = None \<or> sub_name sub = Some [] \<or>
      sub_keywords sub = None \<or> sub_keywords sub = Some empty_keywords \<or>
      sub_webhooks sub = None \<or> sub_webhooks sub = Some [] \<or>
      (\<exists>ws. sub_webhooks sub = Some ws \<and> (\<exists>w \<in> set ws. wh_url w = None \<or> wh_url w = Some [])))"

text \<open>One message for each violation of the subscription at position \<open>idx\<close>.\<close>

definition violations ::
  "nat \<Rightarrow> ('a webhook_scheme list, 'b) subscription_scheme \<Rightarrow> validation_error list" where
  "violations idx sub =
     (let l = sub_label_of idx sub
      in (if sub_name sub = None \<or> sub_name sub = Some [] then [Missing_name l] else []) @
         (if sub_keywords sub = None \<or> sub_keywords sub = Some empty_keywords
          then [Missing_keywords l] else []) @
         (case sub_webhooks sub of
            None \<Rightarrow> [Missing_webhooks l]
          | Some [] \<Rightarrow> [Missing_webhooks l]
          | Some ws \<Rightarrow>
              map (\<lambda>(j, w). Webhook_missing_url l j)
                (filter (\<lambda>(j, w). wh_url w = None \<or> wh_url w = Some []) (enumerate 1 ws))))"

fun is_missing_webhooks_line :: "validate_line \<Rightarrow> bool" where
  "is_missing_webhooks_line (Error_item (Missing_webhooks l)) = True"
| "is_missing_webhooks_line _ = False"

section \<open>Example data\<close>

text \<open>ASCII lower-casing, the part of \<open>str.lower\<close> that the examples need.\<close>

definition ascii_lower_char :: "char \<Rightarrow> char" where
  "ascii_lower_char c =
     (let n = (of_char c :: nat)
      in if 65 \<le> n \<and> n \<le> 90 then char_of (n + 32) else c)"

definition ascii_lower :: "string \<Rightarrow> string" where
  "ascii_lower s = map ascii_lower_char s"

definition example_subscription :: "webhook list subscription" where
  "example_subscription =
     \<lparr>sub_id = Some ''sub_example_001'', sub_name = Some ''example'', sub_enabled = Some True,
      sub_keywords = Some \<lparr>kw_normal = Some [''AI''], kw_required = Some [],
        kw_excluded = Some [''ad''], kw_limit = Some 0, kw_other = []\<rparr>,
      sub_webhooks = Some [\<lparr>wh_type = Some ''wework'', wh_url = Some ''https://example.org/hook'',
        wh_name = Some ''group''\<rparr>],
      sub_ai_search = Some \<lparr>ai_enabled = Some True, ai_trigger_threshold = Some 3,
        ai_search_keywords = None, ai_time_range_hours = None, ai_max_results = None\<rparr>\<rparr>"

definition example_news :: "news list" where
  "example_news =
     [\<lparr>title = Some ''AI chip leap''\<rparr>, \<lparr>title = Some ''New AI Ad play''\<rparr>,
      \<lparr>title = Some ''Chip price cut''\<rparr>]"

text \<open>A subscription without \<open>webhooks\<close> and without \<open>id\<close>, and one whose second webhook
  has an empty url.\<close>

definition broken_subscription :: "webhook list subscription" where
  "broken_subscription =
     \<lparr>sub_id = None, sub_name = Some ''no hooks'', sub_enabled = None,
      sub_keywords = Some \<lparr>kw_normal = Some [''AI''], kw_required = None, kw_excluded = None,
        kw_limit = None, kw_other = []\<rparr>,
      sub_webhooks = None, sub_ai_search = None\<rparr>"

definition half_broken_subscription :: "webhook list subscription" where
  "half_broken_subscription =
     \<lparr>sub_id = Some ''s2'', sub_name = Some [], sub_enabled = None,
      sub_keywords = Some empty_keywords,
      sub_webhooks = Some [\<lparr>wh_type = None, wh_url = Some ''https://example.org/a'', wh_name = None\<rparr>,
        \<lparr>wh_type = None, wh_url = Some [], wh_name = Some ''b''\<rparr>],
      sub_ai_search = None\<rparr>"

definition example_manager :: "unit subscription_manager" where
  "example_manager =
     \<lparr>config_path = ''config/subscriptions.json'', config_data = (),
      subscriptions = [broken_subscription, half_broken_subscription, example_subscription]\<rparr>"

text \<open>A store with one subscription, whose \<open>webhooks\<close> list, the list object at address
  0, holds three webhooks; the second has an empty url. The list object at address 1 is
  \<open>self.subscriptions\<close>.\<close>

definition example_store :: store where
  "example_store =
     \<lparr>sub_dicts = (\<lambda>_. \<lparr>sub_id = Some ''s1'', sub_name = Some ''n'', sub_enabled = None,
        sub_keywords = None, sub_webhooks = Some 0, sub_ai_search = None\<rparr>),
      webhook_dicts = (\<lambda>a. if a = 1 then \<lparr>wh_type = None, wh_url = Some [], wh_name = None\<rparr>
        else \<lparr>wh_type = None, wh_url = Some ''https://example.org/hook'', wh_name = None\<rparr>),
      list_objs = (\<lambda>_. [])(0 := [0, 1, 2], 1 := [0]),
      self_subscriptions = 1,
      next_list = 2\<rparr>"

text \<open>A subscription whose three keyword sets are empty, with a limit of 2.\<close>

definition unfiltered_subscription :: "webhook list subscription" where
  "unfiltered_subscription =
     \<lparr>sub_id = Some ''all'', sub_name = Some ''everything'', sub_enabled = None,
      sub_keywords = Some \<lparr>kw_normal = Some [], kw_required = None, kw_excluded = Some [],
        kw_limit = Some 2, kw_other = []\<rparr>,
      sub_webhooks = None, sub_ai_search = None\<rparr>"

text \<open>An example file system: the files written so far, by path. Opening the empty
  path for writing raises \<open>FileNotFoundError\<close>, an \<open>IOError\<close>; any other write
  succeeds.\<close>

definition example_write ::
  "string \<Rightarrow> 'c \<Rightarrow> (string \<times> 'c) list \<Rightarrow> py_exception option \<times> (string \<times> 'c) list" where
  "example_write output_path data fs =
     (if output_path = [] then (Some IOError, fs) else (None, (output_path, data) # fs))"

section \<open>Keyword matching: the loop is a filter\<close>

lemma match_loop_filter:
  "match_loop lower normal required excluded news_data acc =
     acc @ filter (passes_rules lower normal required excluded) news_data"
  by (induction news_data arbitrary: acc)
     (auto simp: passes_rules_def title_of_def py_in_def dict_get_def list_ex_iff list_all_iff
        Let_def split: option.splits)

lemma rule_accessors:
  "dict_get (kw_normal (dict_get (sub_keywords sub) empty_keywords)) [] = normal_of sub"
  "dict_get (kw_required (dict_get (sub_keywords sub) empty_keywords)) [] = required_of sub"
  "dict_get (kw_excluded (dict_get (sub_keywords sub) empty_keywords)) [] = excluded_of sub"
  "dict_get (kw_limit (dict_get (sub_keywords sub) empty_keywords)) 0 = limit_of sub"
  by (simp_all add: normal_of_def required_of_def excluded_of_def limit_of_def dict_get_def
        empty_keywords_def split: option.splits)

lemma match_as_filter:
  "match_news_for_subscription lower sub news_data =
     truncate_to_limit (limit_of sub)
       (filter (passes_rules lower (normal_of sub) (required_of sub) (excluded_of sub)) news_data)"
  unfolding match_news_for_subscription_def Let_def rule_accessors match_loop_filter
    truncate_to_limit_def
  by simp

lemma set_truncate_to_limit: "set (truncate_to_limit limit xs) \<subseteq> set xs"
  by (auto simp: truncate_to_limit_def dest: in_set_takeD)

lemma subseq_truncate_to_limit: "subseq (truncate_to_limit limit xs) xs"
proof -
  have "subseq (take n xs) (take n xs @ drop n xs)" for n
    by (rule list_emb_prefix) simp
  then show ?thesis
    by (auto simp: truncate_to_limit_def)
qed

text \<open>
  C1. For every subscription and every list of news items,
  \<open>match_news_for_subscription\<close> returns exactly the items that pass the three rules on
  the lower-cased title and the lower-cased keywords, in the order of the input, cut to
  the first \<open>limit\<close> items when \<open>limit > 0\<close> and more than \<open>limit\<close> items pass. The
  result is a subsequence of the input.
\<close>

theorem match_returns_passing_items:
  "(let passing = filter (passes_rules lower (normal_of sub) (required_of sub) (excluded_of sub))
                    news_data
    in match_news_for_subscription lower sub news_data =
         (if limit_of sub > 0 \<and> int (length passing) > limit_of sub
          then take (nat (limit_of sub)) passing else passing))
   \<and> subseq (match_news_for_subscription lower sub news_data) news_data"
proof -
  let ?passing = "filter (passes_rules lower (normal_of sub) (required_of sub) (excluded_of sub))
                    news_data"
  have "subseq (truncate_to_limit (limit_of sub) ?passing) ?passing"
    by (rule subseq_truncate_to_limit)
  moreover have "subseq ?passing news_data"
    by simp
  ultimately have "subseq (truncate_to_limit (limit_of sub) ?passing) news_data"
    by (rule subseq_order.trans)
  then show ?thesis
    by (simp add: match_as_filter truncate_to_limit_def)
qed

theorem match_returns_passing_items_witness:
  "match_news_for_subscription ascii_lower example_subscription example_news =
     [\<lparr>title = Some ''AI chip leap''\<rparr>]"
  unfolding match_returns_passing_items [THEN conjunct1, unfolded Let_def]
  by code_simp

text \<open>
  C2. An item whose lower-cased title contains the lower-cased form of some excluded
  term of the subscription is not in the result of \<open>match_news_for_subscription\<close>,
  whatever the normal and required terms are.
\<close>

theorem excluded_term_vetoes_item:
  assumes "ex \<in> set (excluded_of sub)"
    and "sublist (lower ex) (lower (title_of item))"
  shows "item \<notin> set (match_news_for_subscription lower sub news_data)"
proof
  assume "item \<in> set (match_news_for_subscription lower sub news_data)"
  then have "item \<in> set (filter (passes_rules lower (normal_of sub) (required_of sub)
      (excluded_of sub)) news_data)"
    using set_truncate_to_limit by (fastforce simp: match_as_filter)
  then have "passes_rules lower (normal_of sub) (required_of sub) (excluded_of sub) item"
    by simp
  with assms show False
    by (auto simp: passes_rules_def)
qed

theorem excluded_term_vetoes_item_witness:
  "''ad'' \<in> set (excluded_of example_subscription)
   \<and> sublist (ascii_lower ''ad'') (ascii_lower (title_of \<lparr>title = Some ''New AI Ad play''\<rparr>))
   \<and> \<lparr>title = Some ''New AI Ad play''\<rparr> \<in> set example_news
   \<and> \<lparr>title = Some ''New AI Ad play''\<rparr> \<notin>
        set (match_news_for_subscription ascii_lower example_subscription example_news)"
proof -
  have m: "''ad'' \<in> set (excluded_of example_subscription)"
    by (simp add: excluded_of_def example_subscription_def)
  have s: "sublist (ascii_lower ''ad'') (ascii_lower (title_of \<lparr>title = Some ''New AI Ad play''\<rparr>))"
    by code_simp
  have i: "\<lparr>title = Some ''New AI Ad play''\<rparr> \<in> set example_news"
    by (simp add: example_news_def)
  from excluded_term_vetoes_item [OF m s, of example_news] m s i show ?thesis
    by simp
qed

text \<open>
  C7. When the subscription has no normal term, the result is the one the exclusion and
  required checks alone give: the normal-keyword check rejects no item. When it has no
  required term, the result is the one the exclusion and normal checks alone give: the
  required-keyword check rejects no item. With the three sets empty every item is
  accepted, and the result is the input cut to the limit.
\<close>

theorem empty_normal_and_required_reject_nothing:
  "(normal_of sub = [] \<longrightarrow>
      match_news_for_subscription lower sub news_data =
        truncate_to_limit (limit_of sub)
          (filter (\<lambda>item.
             (\<forall>ex \<in> set (excluded_of sub). \<not> sublist (lower ex) (lower (title_of item))) \<and>
             (required_of sub \<noteq> [] \<longrightarrow>
                (\<forall>req \<in> set (required_of sub). sublist (lower req) (lower (title_of item)))))
           news_data))
   \<and> (required_of sub = [] \<longrightarrow>
      match_news_for_subscription lower sub news_data =
        truncate_to_limit (limit_of sub)
          (filter (\<lambda>item.
             (\<forall>ex \<in> set (excluded_of sub). \<not> sublist (lower ex) (lower (title_of item))) \<and>
             (normal_of sub \<noteq> [] \<longrightarrow>
                (\<exists>kw \<in> set (normal_of sub). sublist (lower kw) (lower (title_of item)))))
           news_data))
   \<and> (normal_of sub = [] \<and> required_of sub = [] \<and> excluded_of sub = [] \<longrightarrow>
      match_news_for_subscription lower sub news_data =
        truncate_to_limit (limit_of sub) news_data)"
  by (simp add: match_as_filter passes_rules_def cong: filter_cong)

theorem empty_normal_and_required_reject_nothing_witness:
  "normal_of unfiltered_subscription = [] \<and> required_of unfiltered_subscription = [] \<and>
   excluded_of unfiltered_subscription = [] \<and> limit_of unfiltered_subscription = 2 \<and>
   match_news_for_subscription ascii_lower unfiltered_subscription example_news =
     [\<lparr>title = Some ''AI chip leap''\<rparr>, \<lparr>title = Some ''New AI Ad play''\<rparr>]"
proof -
  have n: "normal_of unfiltered_subscription = []"
    and r: "required_of unfiltered_subscription = []"
    and e: "excluded_of unfiltered_subscription = []"
    and l: "limit_of unfiltered_subscription = 2"
    by (simp_all add: normal_of_def required_of_def excluded_of_def limit_of_def
          unfiltered_subscription_def)
  have "match_news_for_subscription ascii_lower unfiltered_subscription example_news =
      truncate_to_limit (limit_of unfiltered_subscription) example_news"
    using empty_normal_and_required_reject_nothing
      [where sub = unfiltered_subscription and lower = ascii_lower and news_data = example_news]
      n r e
    by blast
  with n r e l show ?thesis
    by (simp add: truncate_to_limit_def example_news_def)
qed

text \<open>
  C10. For a subscription without a \<open>keywords\<close> key, or whose \<open>keywords\<close> is the empty
  dictionary, \<open>match_news_for_subscription\<close> returns the whole input list.
\<close>

theorem no_keywords_returns_all_news:
  assumes "sub_keywords sub = None \<or> sub_keywords sub = Some empty_keywords"
  shows "match_news_for_subscription lower sub news_data = news_data"
  using assms
  by (auto simp: match_as_filter passes_rules_def truncate_to_limit_def normal_of_def
        required_of_def excluded_of_def limit_of_def empty_keywords_def)

theorem no_keywords_returns_all_news_witness:
  "sub_keywords (example_subscription\<lparr>sub_keywords := None\<rparr>) = None \<and>
   sub_keywords half_broken_subscription = Some empty_keywords \<and>
   match_news_for_subscription ascii_lower (example_subscription\<lparr>sub_keywords := None\<rparr>)
     example_news = example_news \<and>
   match_news_for_subscription ascii_lower half_broken_subscription example_news = example_news"
proof -
  have a: "sub_keywords (example_subscription\<lparr>sub_keywords := None\<rparr>) = None"
    by simp
  have b: "sub_keywords half_broken_subscription = Some empty_keywords"
    by (simp add: half_broken_subscription_def)
  from no_keywords_returns_all_news [OF disjI1, OF a, of ascii_lower example_news]
    no_keywords_returns_all_news [OF disjI2, OF b, of ascii_lower example_news] a b
  show ?thesis
    by simp
qed

section \<open>AI search policy\<close>

text \<open>
  C3. \<open>should_enable_ai_search\<close> is true exactly when \<open>ai_search.enabled\<close> is true and
  the matched count is below \<open>trigger_threshold\<close>, which is 3 when the key is absent. So
  it is false for every count when \<open>enabled\<close> is false or absent, and false when the
  count equals the threshold.
\<close>

theorem should_enable_ai_search_iff:
  fixes sub :: "('w, 'b) subscription_scheme"
  assumes "ai_config = (case sub_ai_search sub of None \<Rightarrow> empty_ai_search | Some c \<Rightarrow> c)"
    and "threshold = (case ai_trigger_threshold ai_config of None \<Rightarrow> 3 | Some t \<Rightarrow> t)"
  shows "(should_enable_ai_search sub matched_count =
            (ai_enabled ai_config = Some True \<and> matched_count < threshold))
       \<and> (ai_enabled ai_config \<noteq> Some True \<longrightarrow> \<not> should_enable_ai_search sub matched_count)
       \<and> \<not> should_enable_ai_search sub threshold"
  using assms
  by (auto simp: should_enable_ai_search_def dict_get_def empty_ai_search_def Let_def
        split: option.splits)

theorem should_enable_ai_search_iff_witness:
  "should_enable_ai_search example_subscription 2 \<and>
   \<not> should_enable_ai_search example_subscription 3 \<and>
   \<not> should_enable_ai_search example_subscription 4 \<and>
   ai_enabled empty_ai_search \<noteq> Some True \<and>
   \<not> should_enable_ai_search broken_subscription 0"
proof -
  have c: "\<lparr>ai_enabled = Some True, ai_trigger_threshold = Some 3, ai_search_keywords = None,
        ai_time_range_hours = None, ai_max_results = None\<rparr> =
      (case sub_ai_search example_subscription of None \<Rightarrow> empty_ai_search | Some c \<Rightarrow> c)"
    by (simp add: example_subscription_def)
  have t: "(3::int) = (case ai_trigger_threshold \<lparr>ai_enabled = Some True,
        ai_trigger_threshold = Some 3, ai_search_keywords = None,
        ai_time_range_hours = None, ai_max_results = None\<rparr> of None \<Rightarrow> 3 | Some t \<Rightarrow> t)"
    by simp
  have c': "empty_ai_search =
      (case sub_ai_search broken_subscription of None \<Rightarrow> empty_ai_search | Some c \<Rightarrow> c)"
    by (simp add: broken_subscription_def)
  have t': "(3::int) = (case ai_trigger_threshold empty_ai_search of None \<Rightarrow> 3 | Some t \<Rightarrow> t)"
    by (simp add: empty_ai_search_def)
  have d: "ai_enabled empty_ai_search \<noteq> Some True"
    by (simp add: empty_ai_search_def)
  from should_enable_ai_search_iff [OF c t, of 2]
    should_enable_ai_search_iff [OF c t, of 4]
    should_enable_ai_search_iff [OF c' t', of 0] d
  show ?thesis
    by simp
qed

text \<open>
  C6. The configuration \<open>get_ai_search_config\<close> returns has the \<open>search_keywords\<close> of
  \<open>ai_search\<close> when that list is present and not empty, and the normal keywords of the
  subscription otherwise (the empty list when these are absent too); its other fields
  are those of \<open>ai_search\<close>, with \<open>False\<close>, 3, 24 and 15 for the absent ones.
\<close>

theorem get_ai_search_config_fields:
  fixes sub :: "('w, 'b) subscription_scheme"
  assumes "ai_config = (case sub_ai_search sub of None \<Rightarrow> empty_ai_search | Some c \<Rightarrow> c)"
  shows "search_keywords (get_ai_search_config sub) =
           (case ai_search_keywords ai_config of
              None \<Rightarrow> normal_of sub
            | Some [] \<Rightarrow> normal_of sub
            | Some (k # ks) \<Rightarrow> k # ks)
       \<and> enabled (get_ai_search_config sub) =
           (case ai_enabled ai_config of None \<Rightarrow> False | Some b \<Rightarrow> b)
       \<and> trigger_threshold (get_ai_search_config sub) =
           (case ai_trigger_threshold ai_config of None \<Rightarrow> 3 | Some t \<Rightarrow> t)
       \<and> time_range_hours (get_ai_search_config sub) =
           (case ai_time_range_hours ai_config of None \<Rightarrow> 24 | Some h \<Rightarrow> h)
       \<and> max_results (get_ai_search_config sub) =
           (case ai_max_results ai_config of None \<Rightarrow> 15 | Some m \<Rightarrow> m)"
  unfolding get_ai_search_config_def Let_def rule_accessors assms
  by (simp add: truthy_list_def dict_get_def empty_ai_search_def split: option.splits list.splits)

theorem get_ai_search_config_fields_witness:
  "get_ai_search_config example_subscription =
     \<lparr>enabled = True, trigger_threshold = 3, search_keywords = [''AI''],
      time_range_hours = 24, max_results = 15\<rparr>"
proof -
  have c: "\<lparr>ai_enabled = Some True, ai_trigger_threshold = Some 3, ai_search_keywords = None,
        ai_time_range_hours = None, ai_max_results = None\<rparr> =
      (case sub_ai_search example_subscription of None \<Rightarrow> empty_ai_search | Some c \<Rightarrow> c)"
    by (simp add: example_subscription_def)
  have n: "normal_of example_subscription = [''AI'']"
    by (simp add: normal_of_def example_subscription_def)
  from get_ai_search_config_fields [OF c] n show ?thesis
    by (cases "get_ai_search_config example_subscription") simp
qed

section \<open>Validation\<close>

lemma webhook_loop_messages:
  "webhook_loop sid k ws errors =
     errors @ map (\<lambda>(j, w). Webhook_missing_url sid j)
       (filter (\<lambda>(j, w). wh_url w = None \<or> wh_url w = Some []) (enumerate k ws))"
  by (induction ws arbitrary: k errors) (auto simp: truthy_str_def split: option.splits)

lemma validate_loop_violations:
  "validate_loop idx subs errors =
     errors @ concat (map (\<lambda>(i, sub). violations i sub) (enumerate idx subs))"
proof (induction subs arbitrary: idx errors)
  case Nil
  show ?case by simp
next
  case (Cons sub rest)
  have step: "(let sid = sub_label_of idx sub;
          errors1 = (if \<not> truthy_str (sub_name sub) then errors @ [Missing_name sid] else errors);
          errors2 = (if \<not> truthy_keywords (sub_keywords sub) then errors1 @ [Missing_keywords sid]
                     else errors1)
      in (if \<not> truthy_list (sub_webhooks sub) then errors2 @ [Missing_webhooks sid]
          else let webhooks = dict_get (sub_webhooks sub) []
               in if webhooks = [] then errors2 @ [Empty_webhooks_list sid]
                  else webhook_loop sid 1 webhooks errors2)) = errors @ violations idx sub"
    by (auto simp: violations_def Let_def truthy_str_def truthy_keywords_def truthy_list_def
          dict_get_def webhook_loop_messages split: option.splits list.splits)
  show ?case
    using Cons.IH [of "Suc idx" "errors @ violations idx sub"] step
    by (simp add: Let_def)
qed

lemma violations_empty_iff: "violations idx sub = [] \<longleftrightarrow> \<not> has_violation sub"
proof -
  have "filter (\<lambda>(j, w). wh_url w = None \<or> wh_url w = Some []) (enumerate k ws) = [] \<longleftrightarrow>
      (\<forall>w \<in> set ws. \<not> (wh_url w = None \<or> wh_url w = Some []))" for k and ws :: "'a webhook_scheme list"
    by (induction ws arbitrary: k) auto
  then show ?thesis
    by (auto simp: violations_def has_violation_def Let_def split: option.splits list.splits)
qed

lemma violations_missing_webhooks_count:
  "length (filter is_missing_webhooks_line (map Error_item (violations idx sub))) =
     (if sub_webhooks sub = None \<or> sub_webhooks sub = Some [] then 1 else 0)"
proof -
  have "filter is_missing_webhooks_line (map Error_item (map (\<lambda>(j, w). Webhook_missing_url l j) xs))
      = []" for l and xs :: "(nat \<times> 'a webhook_scheme) list"
    by (induction xs) auto
  then show ?thesis
    by (auto simp: violations_def Let_def split: option.splits list.splits)
qed

lemma concat_violations_missing_webhooks_count:
  "length (filter is_missing_webhooks_line
      (map Error_item (concat (map (\<lambda>(i, sub). violations i sub) (enumerate idx subs))))) =
   length (filter (\<lambda>sub. sub_webhooks sub = None \<or> sub_webhooks sub = Some []) subs)"
proof (induction subs arbitrary: idx)
  case Nil
  show ?case by simp
next
  case (Cons sub rest)
  show ?case
    using Cons.IH [of "Suc idx"] violations_missing_webhooks_count [of idx sub]
    by simp
qed

lemma validate_config_cases:
  "validate_config self =
     (if subscriptions self = [] then (False, [Warn_no_subscriptions])
      else if \<exists>sub \<in> set (subscriptions self). has_violation sub
      then (False, Error_validation_failed #
             map Error_item (concat (map (\<lambda>(i, sub). violations i sub)
               (enumerate 1 (subscriptions self)))))
      else (True, [Ok_validation_passed]))"
proof -
  let ?errs = "concat (map (\<lambda>(i, sub). violations i sub) (enumerate 1 (subscriptions self)))"
  have "?errs = [] \<longleftrightarrow> (\<forall>sub \<in> set (subscriptions self). \<not> has_violation sub)"
  proof -
    have "concat (map (\<lambda>(i, sub). violations i sub) (enumerate k subs)) = [] \<longleftrightarrow>
        (\<forall>sub \<in> set subs. \<not> has_violation sub)"
      for k and subs :: "webhook list subscription list"
      by (induction subs arbitrary: k) (auto simp: violations_empty_iff)
    then show ?thesis .
  qed
  then show ?thesis
    by (simp add: validate_config_def validate_loop_violations Let_def)
qed

text \<open>
  C4. \<open>validate_config\<close> returns true exactly when there is a subscription and none has
  a violation. When some subscription has one, it returns false after printing one
  message for each violation of each subscription, in the order of the subscriptions;
  each subscription whose \<open>webhooks\<close> key is absent (or empty) accounts for exactly one
  missing-webhooks message.
\<close>

theorem validate_config_collects_all_violations:
  "(fst (validate_config self) =
      (subscriptions self \<noteq> [] \<and> (\<forall>sub \<in> set (subscriptions self). \<not> has_violation sub)))
   \<and> ((\<exists>sub \<in> set (subscriptions self). has_violation sub) \<longrightarrow>
        validate_config self =
          (False, Error_validation_failed #
             map Error_item (concat (map (\<lambda>(i, sub). violations i sub)
               (enumerate 1 (subscriptions self))))))
   \<and> (\<forall>i < length (subscriptions self). sub_webhooks (subscriptions self ! i) = None \<longrightarrow>
        length (filter is_missing_webhooks_line
          (map Error_item (violations (Suc i) (subscriptions self ! i)))) = 1)
   \<and> length (filter is_missing_webhooks_line (snd (validate_config self))) =
        length (filter (\<lambda>sub. sub_webhooks sub = None \<or> sub_webhooks sub = Some [])
          (subscriptions self))"
proof -
  have a: "fst (validate_config self) =
      (subscriptions self \<noteq> [] \<and> (\<forall>sub \<in> set (subscriptions self). \<not> has_violation sub))"
    by (simp add: validate_config_cases)
  have b: "(\<exists>sub \<in> set (subscriptions self). has_violation sub) \<longrightarrow>
        validate_config self =
          (False, Error_validation_failed #
             map Error_item (concat (map (\<lambda>(i, sub). violations i sub)
               (enumerate 1 (subscriptions self)))))"
    by (auto simp: validate_config_cases)
  have c: "\<forall>i < length (subscriptions self). sub_webhooks (subscriptions self ! i) = None \<longrightarrow>
        length (filter is_missing_webhooks_line
          (map Error_item (violations (Suc i) (subscriptions self ! i)))) = 1"
  proof (intro allI impI)
    fix i
    assume "sub_webhooks (subscriptions self ! i) = None"
    then show "length (filter is_missing_webhooks_line
          (map Error_item (violations (Suc i) (subscriptions self ! i)))) = 1"
      using violations_missing_webhooks_count [of "Suc i" "subscriptions self ! i"] by simp
  qed
  have d: "length (filter is_missing_webhooks_line (snd (validate_config self))) =
        length (filter (\<lambda>sub. sub_webhooks sub = None \<or> sub_webhooks sub = Some [])
          (subscriptions self))"
  proof (cases "\<exists>sub \<in> set (subscriptions self). has_violation sub")
    case True
    then have "subscriptions self \<noteq> []" by auto
    with True show ?thesis
      using concat_violations_missing_webhooks_count [of 1 "subscriptions self"]
      by (simp add: validate_config_cases)
  next
    case False
    then have "filter (\<lambda>sub. sub_webhooks sub = None \<or> sub_webhooks sub = Some [])
        (subscriptions self) = []"
      by (auto simp: has_violation_def filter_empty_conv)
    with False show ?thesis
      by (simp add: validate_config_cases)
  qed
  from a b c d show ?thesis by blast
qed

theorem validate_config_collects_all_violations_witness:
  "has_violation broken_subscription \<and> has_violation half_broken_subscription \<and>
   \<not> has_violation example_subscription \<and>
   validate_config example_manager =
     (False, [Error_validation_failed,
        Error_item (Missing_webhooks (Position_label 1)),
        Error_item (Missing_name (Id_label ''s2'')),
        Error_item (Missing_keywords (Id_label ''s2'')),
        Error_item (Webhook_missing_url (Id_label ''s2'') 2)]) \<and>
   validate_config (example_manager\<lparr>subscriptions := [example_subscription]\<rparr>) =
     (True, [Ok_validation_passed])"
proof -
  have v: "has_violation broken_subscription" "has_violation half_broken_subscription"
      "\<not> has_violation example_subscription"
    by (simp_all add: has_violation_def broken_subscription_def half_broken_subscription_def
          example_subscription_def empty_keywords_def)
  have m: "\<exists>sub \<in> set (subscriptions example_manager). has_violation sub"
    using v by (simp add: example_manager_def)
  have e: "concat (map (\<lambda>(i, sub). violations i sub) (enumerate 1 (subscriptions example_manager)))
      = [Missing_webhooks (Position_label 1), Missing_name (Id_label ''s2''),
         Missing_keywords (Id_label ''s2''), Webhook_missing_url (Id_label ''s2'') 2]"
    by code_simp
  have f: "validate_config example_manager =
     (False, [Error_validation_failed,
        Error_item (Missing_webhooks (Position_label 1)),
        Error_item (Missing_name (Id_label ''s2'')),
        Error_item (Missing_keywords (Id_label ''s2'')),
        Error_item (Webhook_missing_url (Id_label ''s2'') 2)])"
  proof -
    have "validate_config example_manager =
        (False, Error_validation_failed #
           map Error_item (concat (map (\<lambda>(i, sub). violations i sub)
             (enumerate 1 (subscriptions example_manager)))))"
      using validate_config_collects_all_violations [of example_manager] m by blast
    then show ?thesis
      unfolding e by simp
  qed
  have g: "fst (validate_config (example_manager\<lparr>subscriptions := [example_subscription]\<rparr>))"
  proof -
    have "fst (validate_config (example_manager\<lparr>subscriptions := [example_subscription]\<rparr>)) =
        (subscriptions (example_manager\<lparr>subscriptions := [example_subscription]\<rparr>) \<noteq> [] \<and>
         (\<forall>sub \<in> set (subscriptions (example_manager\<lparr>subscriptions := [example_subscription]\<rparr>)).
            \<not> has_violation sub))"
      using validate_config_collects_all_violations
        [of "example_manager\<lparr>subscriptions := [example_subscription]\<rparr>"]
      by blast
    then show ?thesis
      using v(3) by simp
  qed
  have "validate_config (example_manager\<lparr>subscriptions := [example_subscription]\<rparr>) =
     (True, [Ok_validation_passed])"
    using g by (auto simp: validate_config_def Let_def split: if_splits)
  with v f show ?thesis
    by simp
qed

lemma validate_loop_no_empty_list_message:
  "Empty_webhooks_list l \<notin> set errors \<Longrightarrow> Empty_webhooks_list l \<notin> set (validate_loop idx subs errors)"
proof (induction subs arbitrary: idx errors)
  case Nil
  then show ?case by simp
next
  case (Cons sub rest)
  let ?sid = "sub_label_of idx sub"
  let ?errors1 = "if \<not> truthy_str (sub_name sub) then errors @ [Missing_name ?sid] else errors"
  let ?errors2 = "if \<not> truthy_keywords (sub_keywords sub) then ?errors1 @ [Missing_keywords ?sid]
                  else ?errors1"
  let ?errors3 = "if \<not> truthy_list (sub_webhooks sub) then ?errors2 @ [Missing_webhooks ?sid]
                  else let webhooks = dict_get (sub_webhooks sub) []
                       in if webhooks = [] then ?errors2 @ [Empty_webhooks_list ?sid]
                          else webhook_loop ?sid 1 webhooks ?errors2"
  have "Empty_webhooks_list l \<notin> set ?errors3"
    using Cons.prems
    by (auto simp: truthy_list_def dict_get_def webhook_loop_messages split: option.splits)
  then have "Empty_webhooks_list l \<notin> set (validate_loop (idx + 1) rest ?errors3)"
    by (rule Cons.IH)
  then show ?case
    by (simp add: Let_def)
qed

text \<open>
  C9. No run of \<open>validate_config\<close> prints the message of the empty \<open>webhooks\<close> list:
  the branch that appends it lies under a test that the list is not empty. A
  subscription whose \<open>webhooks\<close> is the empty list gets the missing-webhooks message.
\<close>

theorem empty_webhooks_list_message_unreachable:
  "Error_item (Empty_webhooks_list l) \<notin> set (snd (validate_config self))
   \<and> (subscriptions self = pre @ [sub] @ post \<and> sub_webhooks sub = Some [] \<longrightarrow>
        Error_item (Missing_webhooks (sub_label_of (Suc (length pre)) sub))
          \<in> set (snd (validate_config self)))"
proof -
  have "Error_item (Empty_webhooks_list l) \<notin> set (snd (validate_config self))"
    using validate_loop_no_empty_list_message [of l "[]" 1 "subscriptions self"]
    by (auto simp: validate_config_def Let_def)
  moreover have "Error_item (Missing_webhooks (sub_label_of (Suc (length pre)) sub))
        \<in> set (snd (validate_config self))"
    if s: "subscriptions self = pre @ [sub] @ post" and w: "sub_webhooks sub = Some []"
  proof -
    have "Missing_webhooks (sub_label_of (Suc (length pre)) sub)
        \<in> set (violations (Suc (length pre)) sub)"
      using w by (simp add: violations_def Let_def)
    moreover have "(Suc (length pre), sub) \<in> set (enumerate 1 (subscriptions self))"
      unfolding s by (simp add: in_set_enumerate_eq nth_append)
    ultimately have "Missing_webhooks (sub_label_of (Suc (length pre)) sub)
        \<in> set (validate_loop 1 (subscriptions self) [])"
      unfolding validate_loop_violations by force
    then show ?thesis
      using s by (auto simp: validate_config_def Let_def)
  qed
  ultimately show ?thesis by blast
qed

theorem empty_webhooks_list_message_unreachable_witness:
  "subscriptions (example_manager\<lparr>subscriptions :=
       [example_subscription, example_subscription\<lparr>sub_webhooks := Some []\<rparr>]\<rparr>) =
     [example_subscription] @ [example_subscription\<lparr>sub_webhooks := Some []\<rparr>] @ [] \<and>
   sub_webhooks (example_subscription\<lparr>sub_webhooks := Some []\<rparr>) = Some [] \<and>
   Error_item (Missing_webhooks (Id_label ''sub_example_001'')) \<in>
     set (snd (validate_config (example_manager\<lparr>subscriptions :=
       [example_subscription, example_subscription\<lparr>sub_webhooks := Some []\<rparr>]\<rparr>))) \<and>
   Error_item (Empty_webhooks_list (Id_label ''sub_example_001'')) \<notin>
     set (snd (validate_config (example_manager\<lparr>subscriptions :=
       [example_subscription, example_subscription\<lparr>sub_webhooks := Some []\<rparr>]\<rparr>)))"
proof -
  let ?m = "example_manager\<lparr>subscriptions :=
       [example_subscription, example_subscription\<lparr>sub_webhooks := Some []\<rparr>]\<rparr>"
  let ?s = "example_subscription\<lparr>sub_webhooks := Some []\<rparr>"
  have a: "subscriptions ?m = [example_subscription] @ [?s] @ []"
    by simp
  have b: "sub_webhooks ?s = Some []"
    by simp
  have l: "sub_label_of (Suc (length [example_subscription])) ?s = Id_label ''sub_example_001''"
    by (simp add: sub_label_of_def example_subscription_def)
  from empty_webhooks_list_message_unreachable
    [of "Id_label ''sub_example_001''" ?m "[example_subscription]" ?s "[]"] a b l
  show ?thesis
    by simp
qed

section \<open>Export\<close>

text \<open>
  C5 as the specification states it: if the write fails, \<open>export_config\<close> fails
  with an \<open>IOError\<close>. It does not: where the write raises \<open>IOError\<close>,
  \<open>export_config\<close> returns normally, having printed the failure.
\<close>

theorem export_config_propagates_counterexample:
  "example_write [] (config_data example_manager) [] = (Some IOError, []) \<and>
   fst (export_config example_write example_manager [] []) \<noteq> Inl IOError \<and>
   export_config example_write example_manager [] [] = (Inr [Error_export_failed IOError], [])"
  by (simp add: export_config_def example_write_def)

text \<open>
  C5, amended. If the write fails with an \<open>IOError\<close>, or with any other instance of
  \<open>Exception\<close>, \<open>export_config\<close> catches it, prints the failure and returns normally,
  leaving the file system as the failed write left it. Whatever the write does, no
  instance of \<open>Exception\<close> reaches the caller of \<open>export_config\<close>.
\<close>

theorem export_config_reports_write_failure:
  "(write_json output_path (config_data self) fs = (Some e, fs') \<and> is_Exception e \<longrightarrow>
      export_config write_json self output_path fs = (Inr [Error_export_failed e], fs'))
   \<and> (\<forall>e'. fst (export_config write_json self output_path fs) = Inl e' \<longrightarrow> \<not> is_Exception e')"
  by (auto simp: export_config_def split: prod.splits option.splits if_splits)

theorem export_config_reports_write_failure_witness:
  "example_write [] (config_data example_manager) [(''old.json'', ())] =
     (Some IOError, [(''old.json'', ())]) \<and>
   is_Exception IOError \<and>
   export_config example_write example_manager [] [(''old.json'', ())] =
     (Inr [Error_export_failed IOError], [(''old.json'', ())])"
proof -
  have w: "example_write [] (config_data example_manager) [(''old.json'', ())] =
      (Some IOError, [(''old.json'', ())])"
    by (simp add: example_write_def)
  have e: "is_Exception IOError"
    by simp
  from export_config_reports_write_failure
    [of example_write "[]" example_manager "[(''old.json'', ())]" IOError "[(''old.json'', ())]"]
    w e
  show ?thesis
    by blast
qed

section \<open>Webhook retrieval\<close>

lemma get_webhooks_loop_result:
  assumes "webhooks \<noteq> valid_webhooks"
  shows "get_webhooks_loop st webhooks valid_webhooks i =
     Some (st\<lparr>list_objs := (list_objs st)
        (valid_webhooks := list_objs st valid_webhooks @
           filter (\<lambda>w. truthy_str (wh_url (webhook_dicts st w))) (drop i (list_objs st webhooks)))\<rparr>)"
  using assms
proof (induction "length (list_objs st webhooks) - i" arbitrary: st i)
  case 0
  then show ?case
    by (subst get_webhooks_loop.simps) simp
next
  case (Suc n)
  then have lt: "i < length (list_objs st webhooks)" by simp
  let ?w = "list_objs st webhooks ! i"
  have dr: "drop i (list_objs st webhooks) = ?w # drop (Suc i) (list_objs st webhooks)"
    using lt by (simp add: Cons_nth_drop_Suc)
  show ?case
  proof (cases "truthy_str (wh_url (webhook_dicts st ?w))")
    case False
    have "n = length (list_objs st webhooks) - (i + 1)" using Suc.hyps(2) by simp
    from Suc.hyps(1)[OF this Suc.prems] False lt dr show ?thesis
      by (subst get_webhooks_loop.simps) (simp add: Let_def)
  next
    case True
    let ?st = "list_append st valid_webhooks ?w"
    have same: "list_objs ?st webhooks = list_objs st webhooks"
      using Suc.prems by (simp add: list_append_def)
    have "n = length (list_objs ?st webhooks) - (i + 1)" using Suc.hyps(2) same by simp
    from Suc.hyps(1)[OF this Suc.prems] True lt dr same show ?thesis
      by (subst get_webhooks_loop.simps) (simp add: Let_def list_append_def)
  qed
qed

text \<open>
  C8. Let the \<open>webhooks\<close> list of the subscription, when it has one, and
  \<open>self.subscriptions\<close> be list objects of the store. Then \<open>get_webhooks\<close> returns,
  and returns the address of a list object created by the call, which holds the stored
  webhooks whose \<open>url\<close> is present and not empty, in their order. Every dictionary of
  the store and every list object that existed before the call, the subscription's
  \<open>webhooks\<close> list and \<open>self.subscriptions\<close> among them, is as it was.
\<close>

theorem get_webhooks_filters_and_keeps_store:
  assumes "case sub_webhooks (sub_dicts st s) of None \<Rightarrow> True | Some ws \<Rightarrow> ws < next_list st"
    and "self_subscriptions st < next_list st"
    and "stored = (case sub_webhooks (sub_dicts st s) of None \<Rightarrow> [] | Some ws \<Rightarrow> list_objs st ws)"
  shows "\<exists>r st'. get_webhooks st s = Some (r, st')
       \<and> list_objs st' r =
           filter (\<lambda>w. wh_url (webhook_dicts st w) \<noteq> None \<and> wh_url (webhook_dicts st w) \<noteq> Some [])
             stored
       \<and> next_list st \<le> r \<and> r < next_list st'
       \<and> sub_dicts st' = sub_dicts st
       \<and> webhook_dicts st' = webhook_dicts st
       \<and> self_subscriptions st' = self_subscriptions st
       \<and> list_objs st' (self_subscriptions st) = list_objs st (self_subscriptions st)
       \<and> (case sub_webhooks (sub_dicts st' s) of None \<Rightarrow> [] | Some ws \<Rightarrow> list_objs st' ws) = stored
       \<and> (\<forall>a < next_list st. list_objs st' a = list_objs st a)"
proof -
  let ?d = "next_list st"
  let ?st1 = "snd (new_list st)"
  let ?v = "Suc ?d"
  let ?st2 = "snd (new_list ?st1)"
  let ?ws = "dict_get (sub_webhooks (sub_dicts ?st1 s)) ?d"
  have ne: "?ws \<noteq> ?v"
    using assms(1) by (auto simp: dict_get_def new_list_def split: option.splits)
  have tr: "truthy_str u = (u \<noteq> None \<and> u \<noteq> Some [])" for u
    by (auto simp: truthy_str_def split: option.splits)
  have st: "list_objs ?st2 ?ws = stored"
    using assms(1,3) by (auto simp: dict_get_def new_list_def split: option.splits)
  have gw: "get_webhooks st s =
      (case get_webhooks_loop ?st2 ?ws ?v 0 of None \<Rightarrow> None | Some st3 \<Rightarrow> Some (?v, st3))"
    by (simp add: get_webhooks_def new_list_def Let_def cong: option.case_cong)
  show ?thesis
    unfolding gw get_webhooks_loop_result [OF ne]
    using st assms
    by (auto simp: new_list_def tr split: option.splits)
qed

theorem get_webhooks_filters_and_keeps_store_witness:
  "\<exists>r st'. get_webhooks example_store 0 = Some (r, st')
     \<and> list_objs st' r = [0, 2]
     \<and> list_objs st' 0 = [0, 1, 2]
     \<and> list_objs st' 1 = [0]
     \<and> sub_dicts st' = sub_dicts example_store
     \<and> webhook_dicts st' = webhook_dicts example_store"
proof -
  have a: "case sub_webhooks (sub_dicts example_store 0) of None \<Rightarrow> True
      | Some ws \<Rightarrow> ws < next_list example_store"
    by (simp add: example_store_def)
  have m: "self_subscriptions example_store < next_list example_store"
    by (simp add: example_store_def)
  have b: "[0, 1, 2] = (case sub_webhooks (sub_dicts example_store 0) of None \<Rightarrow> []
      | Some ws \<Rightarrow> list_objs example_store ws)"
    by (simp add: example_store_def)
  have f: "filter (\<lambda>w. wh_url (webhook_dicts example_store w) \<noteq> None \<and>
        wh_url (webhook_dicts example_store w) \<noteq> Some []) [0, 1, 2] = [0, 2]"
    by (simp add: example_store_def)
  have l: "list_objs example_store 0 = [0, 1, 2]" "list_objs example_store 1 = [0]"
      "(0::nat) < next_list example_store" "(1::nat) < next_list example_store"
    by (simp_all add: example_store_def)
  from get_webhooks_filters_and_keeps_store [OF a m b]
  obtain r st' where "get_webhooks example_store 0 = Some (r, st')"
    and "list_objs st' r = filter (\<lambda>w. wh_url (webhook_dicts example_store w) \<noteq> None \<and>
        wh_url (webhook_dicts example_store w) \<noteq> Some []) [0, 1, 2]"
    and "sub_dicts st' = sub_dicts example_store"
    and "webhook_dicts st' = webhook_dicts example_store"
    and "\<forall>a < next_list example_store. list_objs st' a = list_objs example_store a"
    by blast
  then show ?thesis
    using f l by auto
qed

end
